theory Spec2Isabelle
  imports Complex_Main
begin

section \<open>TF-IDF search: the script \<open>tfidf_search.py\<close>\<close>

text \<open>
  The script ranks the rows of a CSV column against a query. Its own code is the
  validation and control flow of \<open>main\<close>, the loading of the data frame, and the
  top-k selection of \<open>search\<close>. The vectoriser and the similarity are library calls;
  they are modelled below from the design document, once over exact real numbers and
  once in the library's 64-bit floats. The library's \<open>argsort\<close> is a parameter, known
  only by its contract.
\<close>

subsection \<open>Python strings\<close>

text \<open>
  A Python string is a sequence of Unicode code points. Column names and file names
  stay Isabelle strings; every text the script reads (cells, query, terms, stop words)
  is a list of code points.
\<close>

type_synonym pystr = "nat list"

text \<open>The code points of an ASCII literal.\<close>

definition str :: "string \<Rightarrow> pystr" where
  "str s = map of_char s"

subsection \<open>Library: array operations\<close>

text \<open>
  \<open>a.argsort()\<close>, library code, promises this much: the result is a permutation of
  the indices of \<open>a\<close> that puts the entries in ascending order. With the default sort
  of the library the order among equal entries is not promised. The function itself is
  therefore an argument of \<open>search\<close> and \<open>main\<close>, and the theorems hold for every
  function that keeps the promise.
\<close>

definition sorts_ascending :: "'a::linorder list \<Rightarrow> nat list \<Rightarrow> bool" where
  "sorts_ascending a p =
     (length p = length a \<and> set p = {..<length a} \<and> sorted (map (\<lambda>i. a ! i) p))"

definition is_argsort :: "('a::linorder list \<Rightarrow> nat list) \<Rightarrow> bool" where
  "is_argsort argsort = (\<forall>a. sorts_ascending a (argsort a))"

text \<open>
  One function that keeps the promise: the stable sort of the indices, in which equal
  entries keep their original order. It is the order the library's sort leaves on the
  short arrays of the examples below.
\<close>

definition stable_argsort :: "'a::linorder list \<Rightarrow> nat list" where
  "stable_argsort a = sort_key (\<lambda>i. a ! i) [0..<length a]"

text \<open>
  Python's \<open>a[start:]\<close>: a negative start counts from the end, and a start outside the
  array is clamped to it.
\<close>

definition slice_from :: "int \<Rightarrow> 'a list \<Rightarrow> 'a list" where
  "slice_from start a =
     (let n = int (length a);
          s = (if start < 0 then max (start + n) 0 else min start n)
      in drop (nat s) a)"

text \<open>\<open>a[::-1]\<close> is \<open>rev a\<close>.\<close>

datatype py_exception = IndexError

text \<open>\<open>a[indices]\<close> with an index array: raises when an index is out of bounds.\<close>

definition take_indices :: "'a list \<Rightarrow> nat list \<Rightarrow> py_exception + 'a list" where
  "take_indices a indices =
     (if list_all (\<lambda>i. i < length a) indices then Inr (map (\<lambda>i. a ! i) indices)
      else Inl IndexError)"

subsection \<open>Library: the TF-IDF vectoriser and cosine similarity\<close>

type_synonym vector = "real list"

definition is_alnum :: "nat \<Rightarrow> bool" where
  "is_alnum k = ((48 \<le> k \<and> k \<le> 57) \<or> (65 \<le> k \<and> k \<le> 90) \<or> (97 \<le> k \<and> k \<le> 122))"

definition lower :: "nat \<Rightarrow> nat" where
  "lower k = (if 65 \<le> k \<and> k \<le> 90 then k + 32 else k)"

fun split_words :: "pystr \<Rightarrow> pystr \<Rightarrow> pystr list" where
  "split_words cur [] = (if cur = [] then [] else [cur])"
| "split_words cur (c # cs) =
     (if is_alnum c then split_words (cur @ [c]) cs
      else (if cur = [] then [] else [cur]) @ split_words [] cs)"

definition bigrams :: "pystr list \<Rightarrow> pystr list" where
  "bigrams ws = map (\<lambda>(a, b). a @ [32] @ b) (zip ws (tl ws))"

text \<open>
  Modelled from the spec: the tokenizer of the vectoriser (design 4.1), whose code is
  the library's. Lowercase, split on non-alphanumeric boundaries, drop the stop words,
  emit the surviving words and the pairs of adjacent surviving words (joined by a
  space). Letters and digits are the ASCII ones. The stop-word list \<open>english\<close> is the
  library's table and is a parameter here.
\<close>

definition tokenize :: "pystr list \<Rightarrow> pystr \<Rightarrow> pystr list" where
  "tokenize english text =
     (let ws = filter (\<lambda>w. w \<notin> set english) (split_words [] (map lower text))
      in ws @ bigrams ws)"

text \<open>The settings the script passes to the vectoriser.\<close>

definition max_features :: nat where
  "max_features = 10000"

definition min_df :: nat where
  "min_df = 1"

definition document_frequency :: "pystr list list \<Rightarrow> pystr \<Rightarrow> nat" where
  "document_frequency docs t = length (filter (\<lambda>d. t \<in> set d) docs)"

definition total_count :: "pystr list list \<Rightarrow> pystr \<Rightarrow> nat" where
  "total_count docs t = count_list (concat docs) t"

definition first_seen :: "'a list \<Rightarrow> 'a list" where
  "first_seen xs = rev (remdups (rev xs))"

datatype build_error = EmptyCorpusError | EmptyVocabularyError

text \<open>
  Modelled from the spec: the vocabulary builder (design 4.2), library code. Terms in
  first-seen order; terms below the minimum document frequency are dropped; above the
  cap only the most frequent terms stay, ties by first-seen order; the id of a term is
  its position in the resulting list. No surviving term is an error.
\<close>

definition build_vocabulary :: "pystr list list \<Rightarrow> build_error + pystr list" where
  "build_vocabulary docs =
     (let terms = first_seen (concat docs);
          kept = filter (\<lambda>t. min_df \<le> document_frequency docs t) terms;
          capped = (if max_features < length kept
                    then take max_features (sort_key (\<lambda>t. - int (total_count docs t)) kept)
                    else kept)
      in if capped = [] then Inl EmptyVocabularyError else Inr capped)"

text \<open>
  Modelled from the spec: the smoothed inverse document frequency (design 4.3),
  library code: \<open>ln ((1 + N) / (1 + df)) + 1\<close>.
\<close>

definition smoothed_idf :: "nat \<Rightarrow> nat \<Rightarrow> real" where
  "smoothed_idf N df = ln ((1 + real N) / (1 + real df)) + 1"

definition computeIDF :: "pystr list \<Rightarrow> (pystr \<Rightarrow> nat) \<Rightarrow> nat \<Rightarrow> vector" where
  "computeIDF vocab df N = map (\<lambda>t. smoothed_idf N (df t)) vocab"

definition dot :: "vector \<Rightarrow> vector \<Rightarrow> real" where
  "dot u v = sum_list (map (\<lambda>(x, y). x * y) (zip u v))"

definition l2_norm :: "vector \<Rightarrow> real" where
  "l2_norm v = sqrt (dot v v)"

definition l2_normalize :: "vector \<Rightarrow> vector" where
  "l2_normalize v = (if list_all (\<lambda>x. x = 0) v then v else map (\<lambda>x. x / l2_norm v) v)"

text \<open>
  Modelled from the spec: the vectoriser (design 4.4), library code. The raw weight of
  a vocabulary term is its count in the input times its idf; terms outside the
  vocabulary are ignored; the raw vector is L2-normalised, and an all-zero raw vector
  stays the zero vector. The sparse vector of the design is written densely: one entry
  per vocabulary id, an absent id being the entry 0.
\<close>

definition raw_weights :: "pystr list \<Rightarrow> pystr list \<Rightarrow> vector \<Rightarrow> vector" where
  "raw_weights terms vocab w = map (\<lambda>(t, x). real (count_list terms t) * x) (zip vocab w)"

definition vectorize :: "pystr list \<Rightarrow> pystr list \<Rightarrow> vector \<Rightarrow> vector" where
  "vectorize terms vocab w = l2_normalize (raw_weights terms vocab w)"

record tfidf_vectorizer =
  stop_words :: "pystr list"
  vocabulary :: "pystr list"
  idf :: vector

text \<open>
  Modelled from the spec: \<open>vectorizer.fit_transform(documents)\<close>, the index build
  (design 4.5), library code. It returns the fitted vectoriser and the matrix of
  document vectors, one row per document in the original order.
\<close>

definition fit_transform ::
  "pystr list \<Rightarrow> pystr list \<Rightarrow> build_error + (tfidf_vectorizer \<times> vector list)" where
  "fit_transform english documents =
     (if documents = [] then Inl EmptyCorpusError
      else
        (let tokenized = map (tokenize english) documents
         in case build_vocabulary tokenized of
              Inl e \<Rightarrow> Inl e
            | Inr vocab \<Rightarrow>
                (let weights = computeIDF vocab (document_frequency tokenized) (length documents)
                 in Inr (\<lparr>stop_words = english, vocabulary = vocab, idf = weights\<rparr>,
                         map (\<lambda>terms. vectorize terms vocab weights) tokenized))))"

text \<open>
  Modelled from the spec: \<open>vectorizer.transform([query])\<close>, the query vector over the
  frozen vocabulary and weights (design 4.5, \<open>vectorizeQuery\<close>), library code.
\<close>

definition transform :: "tfidf_vectorizer \<Rightarrow> pystr \<Rightarrow> vector" where
  "transform vectorizer text =
     vectorize (tokenize (stop_words vectorizer) text) (vocabulary vectorizer) (idf vectorizer)"

text \<open>
  Modelled from the spec: \<open>cosine_similarity(X, query_vec).flatten()\<close> (design 4.6),
  library code: the dot product of each row with the query vector, both already of unit
  norm or zero.
\<close>

definition cosine_similarity :: "vector list \<Rightarrow> vector \<Rightarrow> real list" where
  "cosine_similarity X query_vec = map (\<lambda>d. dot d query_vec) X"

subsection \<open>Library: the same arithmetic in 64-bit floats\<close>













subsection \<open>The script\<close>

datatype error =
    TopKTooSmall
  | QueryEmpty
  | FileNotFound
  | FileEmpty
  | CsvReadError
  | ColumnNotFound
  | TfidfIndexError build_error
  | SearchError py_exception

text \<open>
  What \<open>pd.read_csv\<close> gives: one of the exceptions \<open>load_dataset\<close> catches, or a
  data frame. A row maps a column name to its cell, a text; a missing cell is \<open>None\<close>.
\<close>

record dataframe =
  columns :: "string list"
  records :: "(string \<Rightarrow> pystr option) list"

datatype read_csv_result =
    FileNotFoundError
  | EmptyDataError
  | OtherReadError
  | Frame dataframe

definition fillna :: "dataframe \<Rightarrow> string \<Rightarrow> dataframe" where
  "fillna df text_column =
     df\<lparr>records := map (\<lambda>r. r(text_column := Some (case r text_column of None \<Rightarrow> [] | Some s \<Rightarrow> s)))
                        (records df)\<rparr>"

definition load_dataset :: "read_csv_result \<Rightarrow> string \<Rightarrow> error + dataframe" where
  "load_dataset csv text_column =
     (case csv of
        FileNotFoundError \<Rightarrow> Inl FileNotFound
      | EmptyDataError \<Rightarrow> Inl FileEmpty
      | OtherReadError \<Rightarrow> Inl CsvReadError
      | Frame df \<Rightarrow>
          if text_column \<notin> set (columns df) then Inl ColumnNotFound
          else Inr (fillna df text_column))"

text \<open>\<open>df[text_column]\<close> after \<open>load_dataset\<close>: the texts of the column, in row order.\<close>

definition column_text :: "dataframe \<Rightarrow> string \<Rightarrow> pystr list" where
  "column_text df text_column =
     map (\<lambda>r. case r text_column of None \<Rightarrow> [] | Some s \<Rightarrow> s) (records df)"

definition create_tfidf_index ::
  "pystr list \<Rightarrow> pystr list \<Rightarrow> error + (tfidf_vectorizer \<times> vector list)" where
  "create_tfidf_index english documents =
     (case fit_transform english documents of
        Inl e \<Rightarrow> Inl (TfidfIndexError e)
      | Inr (vectorizer, X) \<Rightarrow> Inr (vectorizer, X))"

text \<open>Lines 82 to 85 of \<open>search\<close>: the top-k indices, best first, and their scores.\<close>

definition top_k_select ::
  "('a::linorder list \<Rightarrow> nat list) \<Rightarrow> 'a list \<Rightarrow> int \<Rightarrow> error + (nat list \<times> 'a list)" where
  "top_k_select argsort similarities top_k =
     (let top_indices = rev (slice_from (- top_k) (argsort similarities))
      in case take_indices similarities top_indices of
           Inl e \<Rightarrow> Inl (SearchError e)
         | Inr scores \<Rightarrow> Inr (top_indices, scores))"

definition search ::
  "(real list \<Rightarrow> nat list) \<Rightarrow> tfidf_vectorizer \<Rightarrow> vector list \<Rightarrow> pystr \<Rightarrow> int \<Rightarrow>
     error + (nat list \<times> real list)" where
  "search argsort vectorizer X query top_k =
     (let query_vec = transform vectorizer query;
          similarities = cosine_similarity X query_vec
      in top_k_select argsort similarities top_k)"


text \<open>
  \<open>str.strip()\<close> removes at both ends the code points Python counts as whitespace:
  the ASCII ones (9 to 13, 28 to 32), U+0085, U+00A0, U+1680, U+2000 to U+200A, U+2028,
  U+2029, U+202F, U+205F and U+3000.
\<close>

definition isspace :: "nat \<Rightarrow> bool" where
  "isspace k =
     ((9 \<le> k \<and> k \<le> 13) \<or> (28 \<le> k \<and> k \<le> 32) \<or> k = 133 \<or> k = 160 \<or> k = 5760 \<or>
      (8192 \<le> k \<and> k \<le> 8202) \<or> k = 8232 \<or> k = 8233 \<or> k = 8239 \<or> k = 8287 \<or> k = 12288)"

definition strip :: "pystr \<Rightarrow> pystr" where
  "strip s = rev (dropWhile isspace (rev (dropWhile isspace s)))"

record args =
  csv_file :: string
  text_column :: string
  query :: pystr
  top_k :: int

text \<open>
  How a run of \<open>main\<close> ends: \<open>sys.exit(1)\<close> after an error message, an uncaught
  exception, \<open>sys.exit(0)\<close> after the message that nothing relevant was found, or the
  printed ranking.
\<close>

datatype outcome =
    Exit1 error
  | Uncaught py_exception
  | NoRelevantResults
  | Printed "(nat \<times> real) list"

definition main ::
  "(real list \<Rightarrow> nat list) \<Rightarrow> pystr list \<Rightarrow> read_csv_result \<Rightarrow> args \<Rightarrow> outcome" where
  "main argsort english csv a =
     (if top_k a < 1 then Exit1 TopKTooSmall
      else if strip (query a) = [] then Exit1 QueryEmpty
      else
        case load_dataset csv (text_column a) of
          Inl e \<Rightarrow> Exit1 e
        | Inr df \<Rightarrow>
            (case create_tfidf_index english (column_text df (text_column a)) of
               Inl e \<Rightarrow> Exit1 e
             | Inr (vectorizer, X) \<Rightarrow>
                 (let k = min (top_k a) (int (length (records df)))
                  in case search argsort vectorizer X (query a) k of
                       Inl e \<Rightarrow> Exit1 e
                     | Inr (indices, scores) \<Rightarrow>
                         (case scores of
                            [] \<Rightarrow> Uncaught IndexError
                          | s # _ \<Rightarrow>
                              if s = 0 then NoRelevantResults
                              else Printed (zip indices scores)))))"

section \<open>Top-k selection\<close>

lemma stable_argsort_sorts: "sorts_ascending a (stable_argsort a)"
  by (auto simp: sorts_ascending_def stable_argsort_def)

lemma is_argsort_stable: "is_argsort stable_argsort"
  by (simp add: is_argsort_def stable_argsort_sorts)

lemma is_argsortD:
  assumes "is_argsort argsort"
  shows "length (argsort a) = length a"
    and "set (argsort a) = {..<length a}"
    and "sorted (map (\<lambda>i. a ! i) (argsort a))"
  using assms by (simp_all add: is_argsort_def sorts_ascending_def)

lemma length_slice_from:
  "length (slice_from start a) =
     (if start < 0 then min (nat (- start)) (length a) else length a - nat start)"
  by (auto simp: slice_from_def Let_def)

lemma set_slice_from: "set (slice_from start a) \<subseteq> set a"
  by (simp add: slice_from_def Let_def set_drop_subset)

lemma top_indices_in_range:
  assumes "is_argsort argsort"
  shows "list_all (\<lambda>i. i < length a) (slice_from start (argsort a))"
proof -
  have "set (slice_from start (argsort a)) \<subseteq> {..<length a}"
    using set_slice_from [of start "argsort a"] by (simp add: is_argsortD(2) [OF assms])
  then show ?thesis by (auto simp: list_all_iff)
qed

lemma top_k_select_eq:
  assumes "is_argsort argsort"
  shows "top_k_select argsort sims k =
     Inr (rev (slice_from (- k) (argsort sims)),
          map (\<lambda>i. sims ! i) (rev (slice_from (- k) (argsort sims))))"
  by (simp add: top_k_select_def take_indices_def top_indices_in_range [OF assms] Let_def)

lemma search_eq:
  "search argsort v X q k = top_k_select argsort (cosine_similarity X (transform v q)) k"
  by (simp add: search_def)

section \<open>Vectors, weights and the index\<close>

lemma zip_map_self: "zip xs (map f xs) = map (\<lambda>x. (x, f x)) xs"
  by (induction xs) auto

lemma dot_Nil [simp]: "dot [] v = 0" "dot u [] = 0"
  by (simp_all add: dot_def)

lemma dot_Cons [simp]: "dot (x # u) (y # v) = x * y + dot u v"
  by (simp add: dot_def)

lemma dot_self_nonneg: "0 \<le> dot v v"
  by (induction v) auto

lemma dot_self_zero_iff: "dot v v = 0 \<longleftrightarrow> list_all (\<lambda>x. x = 0) v"
proof (induction v)
  case Nil
  then show ?case by simp
next
  case (Cons x v)
  have "x * x + dot v v = 0 \<longleftrightarrow> x = 0 \<and> dot v v = 0"
    using dot_self_nonneg [of v] by (smt (verit) mult_eq_0_iff zero_le_square)
  then show ?case using Cons by simp
qed

lemma dot_nonneg:
  "list_all (\<lambda>x. 0 \<le> x) u \<Longrightarrow> list_all (\<lambda>x. 0 \<le> x) v \<Longrightarrow> 0 \<le> dot u v"
proof (induction u arbitrary: v)
  case Nil
  then show ?case by simp
next
  case (Cons x u)
  then show ?case by (cases v) auto
qed

lemma dot_zero_left: "list_all (\<lambda>x. x = 0) u \<Longrightarrow> dot u v = 0"
proof (induction u arbitrary: v)
  case Nil
  then show ?case by simp
next
  case (Cons x u)
  then show ?case by (cases v) auto
qed

lemma dot_zero_right: "list_all (\<lambda>x. x = 0) v \<Longrightarrow> dot u v = 0"
proof (induction u arbitrary: v)
  case Nil
  then show ?case by simp
next
  case (Cons x u)
  then show ?case by (cases v) auto
qed

lemma cauchy_schwarz_step:
  fixes a b s p q :: real
  assumes "s\<^sup>2 \<le> p * q" "0 \<le> p" "0 \<le> q"
  shows "(a * b + s)\<^sup>2 \<le> (a * a + p) * (b * b + q)"
proof -
  have "\<bar>s\<bar> \<le> sqrt p * sqrt q"
    using assms by (metis real_sqrt_abs real_sqrt_le_iff real_sqrt_mult)
  have "2 * (a * b) * s \<le> 2 * (\<bar>a\<bar> * sqrt q) * (\<bar>b\<bar> * sqrt p)"
  proof -
    have "(a * b) * s \<le> \<bar>a * b\<bar> * \<bar>s\<bar>"
      by (metis abs_ge_self abs_mult)
    also have "\<dots> \<le> \<bar>a * b\<bar> * (sqrt p * sqrt q)"
      using \<open>\<bar>s\<bar> \<le> sqrt p * sqrt q\<close> by (simp add: mult_left_mono)
    finally show ?thesis by (simp add: abs_mult mult_ac)
  qed
  also have "\<dots> \<le> (\<bar>a\<bar> * sqrt q)\<^sup>2 + (\<bar>b\<bar> * sqrt p)\<^sup>2"
    by (rule sum_squares_bound [THEN order_trans [rotated]]) (simp add: mult_ac)
  also have "\<dots> = a * a * q + b * b * p"
  proof -
    have "(\<bar>a\<bar> * sqrt q)\<^sup>2 = a\<^sup>2 * q" "(\<bar>b\<bar> * sqrt p)\<^sup>2 = b\<^sup>2 * p"
      using assms by (simp_all add: power_mult_distrib)
    then show ?thesis by (simp add: power2_eq_square)
  qed
  finally have "2 * (a * b) * s \<le> a * a * q + b * b * p" .
  moreover have "(a * b + s)\<^sup>2 = a * a * (b * b) + 2 * (a * b) * s + s\<^sup>2"
    by (simp add: power2_eq_square algebra_simps)
  moreover have "(a * a + p) * (b * b + q) = a * a * (b * b) + (a * a * q + b * b * p) + p * q"
    by (simp add: algebra_simps)
  ultimately show ?thesis using assms(1) by linarith
qed

lemma cauchy_schwarz: "(dot u v)\<^sup>2 \<le> dot u u * dot v v"
proof (induction u arbitrary: v)
  case Nil
  then show ?case by simp
next
  case (Cons x u)
  show ?case
  proof (cases v)
    case Nil
    then show ?thesis by simp
  next
    case (Cons y w)
    then show ?thesis
      using cauchy_schwarz_step [OF Cons.IH [of w] dot_self_nonneg dot_self_nonneg, of x y]
      by (simp add: Cons.IH)
  qed
qed


lemma l2_norm_nonneg: "0 \<le> l2_norm v"
  by (simp add: l2_norm_def dot_self_nonneg)

lemma l2_norm_zero_iff: "l2_norm v = 0 \<longleftrightarrow> list_all (\<lambda>x. x = 0) v"
  by (simp add: l2_norm_def dot_self_zero_iff)

lemma dot_map_div: "dot (map (\<lambda>x. x / c) u) (map (\<lambda>x. x / c) v) = dot u v / (c * c)"
proof (induction u arbitrary: v)
  case Nil
  then show ?case by simp
next
  case (Cons x u)
  then show ?case by (cases v) (simp_all add: add_divide_distrib)
qed

lemma l2_normalize_zero: "list_all (\<lambda>x. x = 0) v \<Longrightarrow> l2_normalize v = v"
  by (simp add: l2_normalize_def)

lemma l2_norm_normalize:
  assumes "\<not> list_all (\<lambda>x. x = 0) v"
  shows "l2_norm (l2_normalize v) = 1"
proof -
  have pos: "0 < dot v v"
    using assms dot_self_nonneg [of v] dot_self_zero_iff [of v] by linarith
  have "l2_norm v * l2_norm v = dot v v"
    using pos by (simp add: l2_norm_def)
  then have "dot (l2_normalize v) (l2_normalize v) = 1"
    using assms pos by (simp add: l2_normalize_def dot_map_div)
  then show ?thesis by (simp add: l2_norm_def)
qed

lemma dot_self_normalize_le: "dot (l2_normalize v) (l2_normalize v) \<le> 1"
proof (cases "list_all (\<lambda>x. x = 0) v")
  case True
  then show ?thesis by (simp add: l2_normalize_zero dot_zero_left)
next
  case False
  then have "sqrt (dot (l2_normalize v) (l2_normalize v)) = 1"
    using l2_norm_normalize [of v] by (simp add: l2_norm_def)
  then show ?thesis by simp
qed

lemma l2_normalize_nonneg:
  "list_all (\<lambda>x. 0 \<le> x) v \<Longrightarrow> list_all (\<lambda>x. 0 \<le> x) (l2_normalize v)"
  using l2_norm_nonneg [of v] by (auto simp: l2_normalize_def list_all_iff)

lemma l2_normalize_zero_iff:
  "list_all (\<lambda>x. x = 0) (l2_normalize v) \<longleftrightarrow> list_all (\<lambda>x. x = 0) v"
proof (cases "list_all (\<lambda>x. x = 0) v")
  case True
  then show ?thesis by (simp add: l2_normalize_zero)
next
  case False
  then have "l2_norm v \<noteq> 0" by (simp add: l2_norm_zero_iff)
  then show ?thesis using False by (auto simp: l2_normalize_def list_all_iff)
qed

lemma dot_unit_interval:
  assumes "list_all (\<lambda>x. 0 \<le> x) u" and "list_all (\<lambda>x. 0 \<le> x) v"
  shows "0 \<le> dot (l2_normalize u) (l2_normalize v) \<and> dot (l2_normalize u) (l2_normalize v) \<le> 1"
proof
  show "0 \<le> dot (l2_normalize u) (l2_normalize v)"
    using assms by (simp add: dot_nonneg l2_normalize_nonneg)
  have "(dot (l2_normalize u) (l2_normalize v))\<^sup>2
          \<le> dot (l2_normalize u) (l2_normalize u) * dot (l2_normalize v) (l2_normalize v)"
    by (rule cauchy_schwarz)
  also have "\<dots> \<le> 1 * 1"
    by (intro mult_mono dot_self_normalize_le dot_self_nonneg) simp
  finally have "(dot (l2_normalize u) (l2_normalize v))\<^sup>2 \<le> 1\<^sup>2" by simp
  then show "dot (l2_normalize u) (l2_normalize v) \<le> 1"
    by (metis abs_le_square_iff abs_one abs_le_iff)
qed

lemma smoothed_idf_pos:
  assumes "df \<le> N"
  shows "0 < smoothed_idf N df"
proof -
  have "1 \<le> (1 + real N) / (1 + real df)"
    using assms by (simp add: le_divide_eq)
  then have "0 \<le> ln ((1 + real N) / (1 + real df))"
    by (rule ln_ge_zero)
  then show ?thesis
    unfolding smoothed_idf_def by linarith
qed

lemma document_frequency_le: "document_frequency docs t \<le> length docs"
  by (simp add: document_frequency_def)

lemma computeIDF_pos: "list_all (\<lambda>w. 0 < w) (computeIDF vocab (document_frequency docs) (length docs))"
  by (simp add: computeIDF_def list_all_iff smoothed_idf_pos document_frequency_le)

lemma raw_weights_nonneg:
  "list_all (\<lambda>x. 0 \<le> x) w \<Longrightarrow> list_all (\<lambda>x. 0 \<le> x) (raw_weights terms vocab w)"
  by (auto simp: raw_weights_def list_all_iff dest: set_zip_rightD)

lemma vectorize_unit_interval:
  assumes "list_all (\<lambda>x. 0 \<le> x) w" and "list_all (\<lambda>x. 0 \<le> x) w'"
  shows "0 \<le> dot (vectorize d vocab w) (vectorize q vocab' w') \<and>
         dot (vectorize d vocab w) (vectorize q vocab' w') \<le> 1"
  using dot_unit_interval [OF raw_weights_nonneg [OF assms(1)] raw_weights_nonneg [OF assms(2)]]
  by (simp add: vectorize_def)

lemma fit_transform_InrD:
  assumes "fit_transform english documents = Inr (v, X)"
  shows "documents \<noteq> []"
    and "build_vocabulary (map (tokenize english) documents) = Inr (vocabulary v)"
    and "stop_words v = english"
    and "idf v = computeIDF (vocabulary v) (document_frequency (map (tokenize english) documents))
           (length documents)"
    and "X = map (\<lambda>terms. vectorize terms (vocabulary v) (idf v)) (map (tokenize english) documents)"
  using assms by (auto simp: fit_transform_def Let_def split: if_splits sum.splits)

lemma raw_weights_computeIDF:
  "raw_weights terms vocab (computeIDF vocab df N) =
     map (\<lambda>t. real (count_list terms t) * smoothed_idf N (df t)) vocab"
  by (simp add: raw_weights_def computeIDF_def zip_map_self)

lemma raw_weights_zero_iff:
  "list_all (\<lambda>x. x = 0) (raw_weights terms vocab (computeIDF vocab (document_frequency docs) (length docs)))
     \<longleftrightarrow> list_all (\<lambda>t. t \<notin> set terms) vocab"
proof -
  have "smoothed_idf (length docs) (document_frequency docs t) \<noteq> 0" for t
    using smoothed_idf_pos [OF document_frequency_le [of docs t]] by simp
  then show ?thesis
    by (simp add: raw_weights_computeIDF list_all_iff count_list_0_iff)
qed

lemma raw_weights_out_of_vocabulary:
  assumes "list_all (\<lambda>t. t \<notin> set vocab) terms"
  shows "list_all (\<lambda>x. x = 0) (raw_weights terms vocab w)"
proof -
  have "count_list terms t = 0" if "t \<in> set vocab" for t
    using assms that by (auto simp: list_all_iff count_list_0_iff)
  then show ?thesis
    by (auto simp: raw_weights_def list_all_iff dest: set_zip_leftD)
qed

lemma fit_transform_rows:
  assumes "fit_transform english documents = Inr (v, X)"
  shows "length X = length documents"
    and "i < length documents \<Longrightarrow>
           X ! i = vectorize (tokenize english (documents ! i)) (vocabulary v) (idf v)"
  using fit_transform_InrD(5) [OF assms] by simp_all

lemma fit_transform_idf_nonneg:
  assumes "fit_transform english documents = Inr (v, X)"
  shows "list_all (\<lambda>x. 0 \<le> x) (idf v)"
proof -
  have "list_all (\<lambda>w. 0 < w) (idf v)"
    using computeIDF_pos [of "vocabulary v" "map (tokenize english) documents"]
    by (simp add: fit_transform_InrD(4) [OF assms])
  then show ?thesis by (auto simp: list_all_iff intro: less_imp_le)
qed

text \<open>
  Claim C5: after a successful index build over \<open>N\<close> documents, the weight of every
  vocabulary term with document frequency \<open>df\<close> is \<open>ln ((1 + N) / (1 + df)) + 1\<close>, and
  it is strictly positive; the formula is strictly positive also at \<open>df = 0\<close> and at
  \<open>df = N\<close>.
\<close>

theorem idf_formula_positive:
  assumes "fit_transform english documents = Inr (v, X)" and "i < length (vocabulary v)"
  shows "idf v ! i =
           ln ((1 + real (length documents)) /
               (1 + real (document_frequency (map (tokenize english) documents) (vocabulary v ! i)))) + 1 \<and>
         0 < idf v ! i \<and>
         0 < smoothed_idf (length documents) 0 \<and>
         0 < smoothed_idf (length documents) (length documents)"
proof -
  have eq: "idf v ! i = smoothed_idf (length documents)
              (document_frequency (map (tokenize english) documents) (vocabulary v ! i))"
    using assms(2) by (simp add: fit_transform_InrD(4) [OF assms(1)] computeIDF_def)
  have "0 < idf v ! i"
    unfolding eq using document_frequency_le [of "map (tokenize english) documents"]
    by (intro smoothed_idf_pos) simp
  then show ?thesis
    using eq by (simp add: smoothed_idf_pos) (simp add: smoothed_idf_def)
qed

text \<open>
  Claim C4: every row of the matrix built by the index construction is either the zero
  vector or has Euclidean norm 1. The row is the zero vector exactly when the document
  contains no vocabulary term, and the build still succeeds with such a row.
\<close>

theorem document_vector_unit_or_zero:
  assumes "fit_transform english documents = Inr (v, X)" and "i < length documents"
  shows "length X = length documents \<and>
         (list_all (\<lambda>x. x = 0) (X ! i) \<or> l2_norm (X ! i) = 1) \<and>
         (list_all (\<lambda>x. x = 0) (X ! i) \<longleftrightarrow>
            list_all (\<lambda>t. t \<notin> set (tokenize english (documents ! i))) (vocabulary v))"
proof -
  let ?raw = "raw_weights (tokenize english (documents ! i)) (vocabulary v) (idf v)"
  have row: "X ! i = l2_normalize ?raw"
    using fit_transform_rows(2) [OF assms] by (simp add: vectorize_def)
  have "list_all (\<lambda>x. x = 0) ?raw \<longleftrightarrow>
          list_all (\<lambda>t. t \<notin> set (tokenize english (documents ! i))) (vocabulary v)"
    unfolding fit_transform_InrD(4) [OF assms(1)]
    using raw_weights_zero_iff [of "tokenize english (documents ! i)" "vocabulary v"
        "map (tokenize english) documents"]
    by simp
  moreover have "list_all (\<lambda>x. x = 0) (X ! i) \<or> l2_norm (X ! i) = 1"
  proof (cases "list_all (\<lambda>x. x = 0) ?raw")
    case True
    then show ?thesis by (simp add: row l2_normalize_zero)
  next
    case False
    then show ?thesis by (simp add: row l2_norm_normalize)
  qed
  ultimately show ?thesis
    using fit_transform_rows(1) [OF assms(1)] by (simp add: row l2_normalize_zero_iff)
qed

lemma cosine_similarity_bounds:
  assumes "fit_transform english documents = Inr (v, X)"
  shows "list_all (\<lambda>s. 0 \<le> s \<and> s \<le> 1) (cosine_similarity X (transform v q))"
proof -
  have w: "list_all (\<lambda>x. 0 \<le> x) (idf v)"
    by (rule fit_transform_idf_nonneg [OF assms])
  show ?thesis
    unfolding cosine_similarity_def transform_def fit_transform_InrD(5) [OF assms]
    using vectorize_unit_interval [OF w w] by (simp add: list_all_iff)
qed

lemma length_cosine_similarity: "length (cosine_similarity X u) = length X"
  by (simp add: cosine_similarity_def)

section \<open>The claims about ranking\<close>

lemma argsort_distinct:
  assumes "is_argsort argsort"
  shows "distinct (argsort a)"
proof -
  have "card (set (argsort a)) = length (argsort a)"
    by (simp add: is_argsortD(1,2) [OF assms])
  then show ?thesis by (rule card_distinct)
qed

lemma top_k_select_InrD:
  assumes "is_argsort argsort" and "top_k_select argsort sims k = Inr (indices, scores)"
  shows "indices = rev (slice_from (- k) (argsort sims))"
    and "scores = map (\<lambda>i. sims ! i) indices"
    and "set indices \<subseteq> {..<length sims}"
    and "set scores \<subseteq> set sims"
    and "distinct indices"
proof -
  show ind: "indices = rev (slice_from (- k) (argsort sims))"
    and sc: "scores = map (\<lambda>i. sims ! i) indices"
    using assms(2) by (auto simp: top_k_select_eq [OF assms(1)])
  show sub: "set indices \<subseteq> {..<length sims}"
    using top_indices_in_range [OF assms(1), of sims "- k"] by (auto simp: ind list_all_iff)
  then show "set scores \<subseteq> set sims"
    by (auto simp: sc)
  show "distinct indices"
    unfolding ind slice_from_def Let_def
    by (simp add: argsort_distinct [OF assms(1)])
qed

lemma top_k_select_length:
  assumes "is_argsort argsort" and "1 \<le> k"
    and "top_k_select argsort sims k = Inr (indices, scores)"
  shows "length indices = min (nat k) (length sims)"
    and "length scores = min (nat k) (length sims)"
proof -
  show "length indices = min (nat k) (length sims)"
    using assms(2)
    by (simp add: top_k_select_InrD(1) [OF assms(1,3)] length_slice_from
        is_argsortD(1) [OF assms(1)])
  then show "length scores = min (nat k) (length sims)"
    by (simp add: top_k_select_InrD(2) [OF assms(1,3)])
qed

lemma top_indices_desc:
  assumes "is_argsort argsort"
  shows "sorted_wrt (\<lambda>i j. a ! j \<le> a ! i) (rev (slice_from start (argsort a)))"
proof -
  have "sorted_wrt (\<lambda>i j. a ! i \<le> a ! j) (argsort a)"
    using is_argsortD(3) [OF assms, of a] by (simp add: sorted_map)
  then have "sorted_wrt (\<lambda>i j. a ! i \<le> a ! j) (slice_from start (argsort a))"
    unfolding slice_from_def Let_def by (rule sorted_wrt_drop)
  then show ?thesis
    by (simp add: sorted_wrt_rev)
qed

text \<open>
  Claim C1, as the code has it: for every vectoriser, matrix, query and \<open>top_k\<close>,
  \<open>search\<close> returns; the returned positions are distinct, each returned score is the
  similarity of the document at its position, and the scores are in descending order.
  The order among entries with equal scores is whatever the library's sort leaves
  (reversed); nothing is stated about it.
\<close>

theorem search_sorted_desc:
  assumes "is_argsort argsort"
  shows "\<exists>indices scores.
           search argsort v X q k = Inr (indices, scores) \<and>
           distinct indices \<and>
           scores = map (\<lambda>i. cosine_similarity X (transform v q) ! i) indices \<and>
           sorted_wrt (\<lambda>s t. t \<le> s) scores"
proof -
  let ?sims = "cosine_similarity X (transform v q)"
  obtain indices scores where r: "top_k_select argsort ?sims k = Inr (indices, scores)"
    by (simp add: top_k_select_eq [OF assms])
  have "sorted_wrt (\<lambda>s t. t \<le> s) scores"
    unfolding top_k_select_InrD(2) [OF assms r] top_k_select_InrD(1) [OF assms r]
    using top_indices_desc [OF assms, of ?sims "- k"] by (simp add: sorted_wrt_map)
  then show ?thesis
    using r top_k_select_InrD(2,5) [OF assms r] by (simp add: search_eq)
qed

text \<open>
  Claim C2: for \<open>top_k \<ge> 1\<close>, \<open>search\<close> returns exactly \<open>min(top_k, documentCount)\<close>
  indices and as many scores, whether or not the caller has clamped \<open>top_k\<close>: the slice
  \<open>[-top_k:]\<close> keeps at most the whole array. This holds for every matrix and every
  query, so also for a non-empty corpus and a non-blank query.
\<close>

theorem search_length:
  assumes "is_argsort argsort" and "1 \<le> k"
  shows "\<exists>indices scores.
           search argsort v X q k = Inr (indices, scores) \<and>
           length indices = min (nat k) (length X) \<and>
           length scores = min (nat k) (length X)"
proof -
  let ?sims = "cosine_similarity X (transform v q)"
  obtain indices scores where r: "top_k_select argsort ?sims k = Inr (indices, scores)"
    by (simp add: top_k_select_eq [OF assms(1)])
  show ?thesis
    using r top_k_select_length [OF assms r]
    by (simp add: search_eq length_cosine_similarity)
qed

section \<open>The claims about the scores, the validation and the errors\<close>


text \<open>
  Claim C7: when no term of the query is in the vocabulary, every similarity is 0 and
  \<open>search\<close> returns a result (no error) whose scores are all 0; for \<open>top_k \<ge> 1\<close> the
  result has exactly \<open>min(top_k, documentCount)\<close> positions and as many scores 0, so on
  a non-empty matrix the score that \<open>main\<close> reads first exists and is 0.
\<close>

theorem search_out_of_vocabulary:
  assumes "is_argsort argsort"
    and "list_all (\<lambda>t. t \<notin> set (vocabulary v)) (tokenize (stop_words v) q)"
  shows "list_all (\<lambda>s. s = 0) (cosine_similarity X (transform v q)) \<and>
         (\<exists>indices scores.
            search argsort v X q k = Inr (indices, scores) \<and>
            list_all (\<lambda>s. s = 0) scores \<and>
            (1 \<le> k \<longrightarrow>
               length indices = min (nat k) (length X) \<and>
               scores = replicate (min (nat k) (length X)) 0))"
proof -
  let ?sims = "cosine_similarity X (transform v q)"
  have "list_all (\<lambda>x. x = 0) (transform v q)"
    unfolding transform_def vectorize_def
    using raw_weights_out_of_vocabulary [OF assms(2)] by (simp add: l2_normalize_zero_iff)
  then have zero: "list_all (\<lambda>s. s = 0) ?sims"
    by (simp add: cosine_similarity_def list_all_iff dot_zero_right)
  obtain indices scores where r: "top_k_select argsort ?sims k = Inr (indices, scores)"
    by (simp add: top_k_select_eq [OF assms(1)])
  have sz: "list_all (\<lambda>s. s = 0) scores"
    using top_k_select_InrD(4) [OF assms(1) r] zero by (auto simp: list_all_iff)
  have "length indices = min (nat k) (length X) \<and>
        scores = replicate (min (nat k) (length X)) 0" if k: "1 \<le> k"
  proof -
    have l: "length indices = min (nat k) (length X)" "length scores = min (nat k) (length X)"
      using top_k_select_length [OF assms(1) k r] by (simp_all add: length_cosine_similarity)
    have "scores = replicate (length scores) 0"
      using sz by (simp add: list_all_iff replicate_length_same)
    then show ?thesis using l by simp
  qed
  then show ?thesis
    using r zero sz by (simp add: search_eq)
qed

lemma sorted_le_last: "sorted xs \<Longrightarrow> x \<in> set xs \<Longrightarrow> x \<le> last xs"
  by (induction xs) auto

lemma argsort_nonempty:
  assumes "is_argsort argsort" and "a \<noteq> []"
  shows "argsort a \<noteq> []"
  using is_argsortD(1) [OF assms(1), of a] assms(2) by auto

lemma argsort_last_max:
  assumes arg: "is_argsort argsort" and "a \<noteq> []"
  shows "a ! last (argsort a) = Max (set a)"
proof -
  define ys where "ys = argsort a"
  have ne: "ys \<noteq> []"
    unfolding ys_def by (rule argsort_nonempty [OF assms])
  have srt: "sorted (map (\<lambda>i. a ! i) ys)"
    unfolding ys_def by (rule is_argsortD(3) [OF arg])
  have st: "set ys = {..<length a}"
    unfolding ys_def by (rule is_argsortD(2) [OF arg])
  have lst: "last (map (\<lambda>i. a ! i) ys) = a ! last ys"
    by (rule last_map [OF ne])
  have upper: "y \<le> a ! last ys" if yin: "y \<in> set a" for y
  proof -
    obtain i where i: "i < length a" "a ! i = y"
      using yin by (auto simp: in_set_conv_nth)
    have "i \<in> set ys" using i(1) by (simp add: st)
    then have "y \<in> set (map (\<lambda>i. a ! i) ys)"
      unfolding i(2) [symmetric] by (simp only: set_map) (rule imageI)
    then have "y \<le> last (map (\<lambda>i. a ! i) ys)"
      by (rule sorted_le_last [OF srt])
    then show ?thesis by (simp only: lst)
  qed
  have "last ys \<in> set ys" by (rule last_in_set [OF ne])
  then have "last ys < length a" by (simp add: st)
  then have mem: "a ! last ys \<in> set a" by (rule nth_mem)
  have "Max (set a) = a ! last ys"
    by (rule Max_eqI [OF finite_set upper mem])
  then show ?thesis by (simp add: ys_def)
qed

lemma slice_from_negative:
  assumes "start < 0"
  shows "slice_from start a = drop (length a - nat (- start)) a"
proof -
  have "nat (max (start + int (length a)) 0) = length a - nat (- start)"
    using assms by linarith
  then show ?thesis
    using assms by (simp only: slice_from_def Let_def if_True)
qed

lemma slice_from_last:
  assumes "a \<noteq> []" and "start < 0"
  shows "slice_from start a \<noteq> [] \<and> last (slice_from start a) = last a"
proof -
  have "0 < length a" using assms(1) by simp
  moreover have "0 < nat (- start)" using assms(2) by simp
  ultimately have m: "length a - nat (- start) < length a"
    by linarith
  show ?thesis
    unfolding slice_from_negative [OF assms(2)] using m by (simp add: last_drop)
qed

lemma top_k_select_head:
  assumes arg: "is_argsort argsort" and "sims \<noteq> []" and "1 \<le> k"
    and "top_k_select argsort sims k = Inr (indices, scores)"
  shows "scores \<noteq> [] \<and> hd scores = Max (set sims)"
proof -
  let ?sl = "slice_from (- k) (argsort sims)"
  have sl: "?sl \<noteq> [] \<and> last ?sl = last (argsort sims)"
    using slice_from_last [OF argsort_nonempty [OF arg assms(2)], of "- k"] assms(3) by simp
  have sc: "scores = map (\<lambda>i. sims ! i) (rev ?sl)"
    using assms(4) by (auto simp: top_k_select_eq [OF arg])
  have "hd scores = sims ! last ?sl"
    using sl by (simp add: sc hd_map hd_rev)
  then show ?thesis
    using sl by (simp add: sc argsort_last_max [OF arg assms(2)])
qed

lemma Max_zero_iff:
  fixes sims :: "real list"
  assumes "sims \<noteq> []" and "list_all (\<lambda>s. 0 \<le> s) sims"
  shows "Max (set sims) = 0 \<longleftrightarrow> list_all (\<lambda>s. s = 0) sims"
proof
  assume m: "Max (set sims) = 0"
  have "s = 0" if "s \<in> set sims" for s
  proof -
    have "s \<le> Max (set sims)" using that by simp
    moreover have "0 \<le> s" using assms(2) that by (simp add: list_all_iff)
    ultimately show ?thesis using m by simp
  qed
  then show "list_all (\<lambda>s. s = 0) sims" by (simp add: list_all_iff)
next
  assume z: "list_all (\<lambda>s. s = 0) sims"
  have "Max (set sims) \<in> set sims" using assms(1) by (intro Max_in) simp_all
  then show "Max (set sims) = 0" using z by (simp add: list_all_iff)
qed

lemma create_tfidf_index_Inr_iff:
  "create_tfidf_index english documents = Inr (v, X) \<longleftrightarrow>
     fit_transform english documents = Inr (v, X)"
  by (auto simp: create_tfidf_index_def split: sum.splits)

lemma main_searched:
  assumes "1 \<le> top_k a" and "strip (query a) \<noteq> []"
    and "load_dataset csv (text_column a) = Inr df"
    and "create_tfidf_index english (column_text df (text_column a)) = Inr (v, X)"
    and "search argsort v X (query a) (min (top_k a) (int (length (records df)))) =
           Inr (indices, scores)"
  shows "main argsort english csv a =
           (case scores of
              [] \<Rightarrow> Uncaught IndexError
            | s # _ \<Rightarrow> if s = 0 then NoRelevantResults else Printed (zip indices scores))"
  using assms by (simp add: main_def Let_def)

text \<open>
  Claim C10: in a run of \<open>main\<close> that reaches \<open>search\<close> (valid \<open>top_k\<close> and query, the
  data set loaded, the index built), the returned scores are not empty, the first one is
  the maximum similarity over all documents, and \<open>main\<close> ends in the branch
  "no relevant results" exactly when every similarity is 0. This holds for every
  \<open>argsort\<close> that keeps the library's promise.
\<close>

theorem first_score_is_max:
  assumes "is_argsort argsort"
    and "1 \<le> top_k a" and "strip (query a) \<noteq> []"
    and "load_dataset csv (text_column a) = Inr df"
    and "create_tfidf_index english (column_text df (text_column a)) = Inr (v, X)"
  shows "\<exists>indices scores.
           search argsort v X (query a) (min (top_k a) (int (length (records df)))) =
             Inr (indices, scores) \<and>
           scores \<noteq> [] \<and>
           hd scores = Max (set (cosine_similarity X (transform v (query a)))) \<and>
           (main argsort english csv a = NoRelevantResults \<longleftrightarrow>
              list_all (\<lambda>s. s = 0) (cosine_similarity X (transform v (query a))))"
proof -
  let ?sims = "cosine_similarity X (transform v (query a))"
  let ?k = "min (top_k a) (int (length (records df)))"
  have fit: "fit_transform english (column_text df (text_column a)) = Inr (v, X)"
    using assms(5) by (simp add: create_tfidf_index_Inr_iff)
  have len: "length X = length (records df)"
    using fit_transform_rows(1) [OF fit] by (simp add: column_text_def)
  have "column_text df (text_column a) \<noteq> []"
    by (rule fit_transform_InrD(1) [OF fit])
  then have ne: "?sims \<noteq> []" and k: "1 \<le> ?k"
    using assms(2) len by (auto simp: cosine_similarity_def column_text_def Suc_le_eq)
  obtain indices scores where r: "top_k_select argsort ?sims ?k = Inr (indices, scores)"
    by (simp add: top_k_select_eq [OF assms(1)])
  have s: "search argsort v X (query a) ?k = Inr (indices, scores)"
    using r by (simp add: search_eq)
  have hd: "scores \<noteq> [] \<and> hd scores = Max (set ?sims)"
    by (rule top_k_select_head [OF assms(1) ne k r])
  have nonneg: "list_all (\<lambda>s. 0 \<le> s) ?sims"
    using cosine_similarity_bounds [OF fit, of "query a"] by (auto simp: list_all_iff)
  have "main argsort english csv a = NoRelevantResults \<longleftrightarrow> hd scores = 0"
    using hd by (cases scores) (simp_all add: main_searched [OF assms(2-5) s])
  then have "main argsort english csv a = NoRelevantResults \<longleftrightarrow> list_all (\<lambda>s. s = 0) ?sims"
    using hd Max_zero_iff [OF ne nonneg] by simp
  then show ?thesis using s hd by blast
qed

text \<open>
  Claim C6, as the code has it: \<open>main\<close> ends with the error about \<open>top_k\<close> whenever
  \<open>top_k < 1\<close>, and with the error about the empty query whenever \<open>top_k \<ge> 1\<close> and the
  query is empty after stripping. Both hold whatever the stop words and the CSV file
  are: nothing is loaded, indexed or compared before. The function \<open>search\<close> checks
  neither argument: it returns a result for every \<open>top_k\<close> and every query.
\<close>

theorem main_validation:
  assumes "is_argsort argsort"
  shows "(top_k a < 1 \<longrightarrow> main argsort english csv a = Exit1 TopKTooSmall) \<and>
         (1 \<le> top_k a \<and> strip (query a) = [] \<longrightarrow>
            main argsort english csv a = Exit1 QueryEmpty) \<and>
         (\<exists>indices scores. search argsort v X q k = Inr (indices, scores))"
  by (simp add: main_def search_eq top_k_select_eq [OF assms])

lemma set_first_seen: "set (first_seen xs) = set xs"
  by (simp add: first_seen_def)

lemma max_features_pos: "0 < max_features"
  by (simp add: max_features_def)

lemma build_vocabulary_empty_iff:
  "build_vocabulary docs = Inl EmptyVocabularyError \<longleftrightarrow> concat docs = []"
proof -
  define terms where "terms = first_seen (concat docs)"
  define capped where "capped =
    (if max_features < length terms
     then take max_features (sort_key (\<lambda>t. - int (total_count docs t)) terms) else terms)"
  have df: "min_df \<le> document_frequency docs t" if "t \<in> set terms" for t
  proof -
    have "t \<in> set (concat docs)"
      using that by (simp add: terms_def set_first_seen)
    then obtain d where "d \<in> set docs" "t \<in> set d"
      by auto
    then have "filter (\<lambda>d. t \<in> set d) docs \<noteq> []"
      by (auto simp: filter_empty_conv)
    then show ?thesis
      by (simp add: min_df_def document_frequency_def Suc_le_eq)
  qed
  then have kept: "filter (\<lambda>t. min_df \<le> document_frequency docs t) terms = terms"
    by (simp add: filter_id_conv)
  have bv: "build_vocabulary docs = (if capped = [] then Inl EmptyVocabularyError else Inr capped)"
    unfolding build_vocabulary_def Let_def terms_def [symmetric] kept capped_def ..
  have "capped \<noteq> []" if big: "max_features < length terms"
  proof
    assume e: "capped = []"
    have "length capped = max_features"
      using big by (simp add: capped_def)
    then show False
      using max_features_pos by (simp add: e)
  qed
  then have "capped = [] \<longleftrightarrow> terms = []"
    by (cases "max_features < length terms") (auto simp: capped_def)
  moreover have "terms = [] \<longleftrightarrow> concat docs = []"
    using set_first_seen [of "concat docs"] unfolding terms_def by (metis set_empty)
  ultimately show ?thesis
    by (simp add: bv)
qed

lemma build_vocabulary_cases:
  "build_vocabulary docs = Inl EmptyVocabularyError \<or> (\<exists>vocab. build_vocabulary docs = Inr vocab)"
  by (simp add: build_vocabulary_def Let_def)

lemma tokenize_stop_words:
  assumes "list_all (\<lambda>w. w \<in> set english) (split_words [] (map lower text))"
  shows "tokenize english text = []"
proof -
  have "filter (\<lambda>w. w \<notin> set english) (split_words [] (map lower text)) = []"
    using assms by (auto simp: filter_empty_conv list_all_iff)
  then show ?thesis by (simp add: tokenize_def bigrams_def)
qed

text \<open>
  Claim C8: the index construction fails with the empty-corpus error on zero documents,
  and with the empty-vocabulary error when the documents are not empty but yield no term
  (a text whose words are all stop words yields none); in both cases no index is
  returned. In every other case an index is returned.
\<close>

theorem create_tfidf_index_errors:
  "create_tfidf_index english [] = Inl (TfidfIndexError EmptyCorpusError) \<and>
   (documents \<noteq> [] \<and> concat (map (tokenize english) documents) = [] \<longrightarrow>
      create_tfidf_index english documents = Inl (TfidfIndexError EmptyVocabularyError)) \<and>
   (documents \<noteq> [] \<and> concat (map (tokenize english) documents) \<noteq> [] \<longrightarrow>
      (\<exists>v X. create_tfidf_index english documents = Inr (v, X))) \<and>
   (list_all (\<lambda>w. w \<in> set english) (split_words [] (map lower s)) \<longrightarrow>
      tokenize english s = [])"
proof -
  have "create_tfidf_index english [] = Inl (TfidfIndexError EmptyCorpusError)"
    by (simp add: create_tfidf_index_def fit_transform_def)
  moreover have "create_tfidf_index english documents = Inl (TfidfIndexError EmptyVocabularyError)"
    if "documents \<noteq> []" "concat (map (tokenize english) documents) = []"
    using that build_vocabulary_empty_iff [of "map (tokenize english) documents"]
    by (simp add: create_tfidf_index_def fit_transform_def)
  moreover have "\<exists>v X. create_tfidf_index english documents = Inr (v, X)"
    if ne: "documents \<noteq> []" and tk: "concat (map (tokenize english) documents) \<noteq> []"
  proof -
    obtain vocab where "build_vocabulary (map (tokenize english) documents) = Inr vocab"
      using tk build_vocabulary_cases [of "map (tokenize english) documents"]
        build_vocabulary_empty_iff [of "map (tokenize english) documents"] by auto
    then show ?thesis
      using ne by (simp add: create_tfidf_index_def fit_transform_def Let_def)
  qed
  ultimately show ?thesis
    using tokenize_stop_words [of english s] by blast
qed

section \<open>Rounding to 64-bit floats\<close>




















section \<open>The claims at concrete inputs\<close>




lemma fit_transform_two_cats:
  "fit_transform [] [str ''cat'', str ''cat''] =
     Inr (\<lparr>stop_words = [], vocabulary = [str ''cat''], idf = [1]\<rparr>, [[1], [1]])"
  by (simp add: str_def fit_transform_def tokenize_def lower_def is_alnum_def bigrams_def
      build_vocabulary_def first_seen_def min_df_def max_features_def
      document_frequency_def total_count_def computeIDF_def smoothed_idf_def
      vectorize_def raw_weights_def l2_normalize_def l2_norm_def dot_def Let_def)

lemma search_two_cats:
  "search stable_argsort \<lparr>stop_words = [], vocabulary = [str ''cat''], idf = [1]\<rparr>
     [[1], [1]] (str ''cat'') k =
   Inr (rev (slice_from (- k) [0, 1]), map (\<lambda>i. [1, 1] ! i) (rev (slice_from (- k) [0, 1])))"
proof -
  have "cosine_similarity [[1], [1]]
          (transform \<lparr>stop_words = [], vocabulary = [str ''cat''], idf = [1]\<rparr> (str ''cat'')) =
        [1, 1]"
    by (simp add: str_def transform_def cosine_similarity_def tokenize_def lower_def
        is_alnum_def bigrams_def vectorize_def raw_weights_def l2_normalize_def l2_norm_def
        dot_def Let_def)
  moreover have "stable_argsort [1, 1 :: real] = [0, 1]"
    by (simp add: stable_argsort_def)
  ultimately show ?thesis
    by (simp add: search_eq top_k_select_eq [OF is_argsort_stable])
qed

lemma column_text_two_cats:
  "load_dataset
     (Frame \<lparr>columns = [''lyrics''],
              records = [\<lambda>c. Some (str ''cat''), \<lambda>c. Some (str ''cat'')]\<rparr>) ''lyrics'' =
     Inr (fillna \<lparr>columns = [''lyrics''],
                   records = [\<lambda>c. Some (str ''cat''), \<lambda>c. Some (str ''cat'')]\<rparr> ''lyrics'')"
  "column_text
     (fillna \<lparr>columns = [''lyrics''],
               records = [\<lambda>c. Some (str ''cat''), \<lambda>c. Some (str ''cat'')]\<rparr> ''lyrics'')
     ''lyrics'' = [str ''cat'', str ''cat'']"
  by (simp_all add: load_dataset_def column_text_def fillna_def)

theorem search_sorted_desc_witness:
  "is_argsort (stable_argsort :: real list \<Rightarrow> nat list) \<and>
   (\<exists>indices scores.
      search stable_argsort \<lparr>stop_words = [], vocabulary = [str ''cat''], idf = [1]\<rparr>
        [[1], [0], [1]] (str ''cat'') 2 = Inr (indices, scores) \<and>
      distinct indices \<and>
      sorted_wrt (\<lambda>s t. t \<le> s) scores)"
  using is_argsort_stable
    search_sorted_desc [OF is_argsort_stable,
      of "\<lparr>stop_words = [], vocabulary = [str ''cat''], idf = [1]\<rparr>" "[[1], [0], [1]]"
        "str ''cat''" 2]
  by blast

text \<open>
  Claim C1 as stated fails. The corpus of the two identical documents \<open>cat\<close> and
  \<open>cat\<close> (no stop words), queried with \<open>cat\<close> and \<open>top_k = 2\<close>: both documents score
  1, the sort leaves the two equal scores in their order, and after the reversal
  document 1 is returned before document 0.
\<close>

theorem search_ties_counterexample:
  "fit_transform [] [str ''cat'', str ''cat''] =
     Inr (\<lparr>stop_words = [], vocabulary = [str ''cat''], idf = [1]\<rparr>, [[1], [1]]) \<and>
   search stable_argsort \<lparr>stop_words = [], vocabulary = [str ''cat''], idf = [1]\<rparr>
     [[1], [1]] (str ''cat'') 2 =
     Inr ([1, 0], [1, 1])"
  by (simp add: fit_transform_two_cats search_two_cats slice_from_def)

theorem search_length_witness:
  "is_argsort (stable_argsort :: real list \<Rightarrow> nat list) \<and> (1::int) \<le> 5 \<and>
   (\<exists>indices scores.
      search stable_argsort \<lparr>stop_words = [], vocabulary = [str ''cat''], idf = [1]\<rparr>
        [[1], [0], [1]] (str ''cat'') 5 = Inr (indices, scores) \<and>
      length indices = 3 \<and> length scores = 3) \<and>
   (\<exists>indices scores.
      search stable_argsort \<lparr>stop_words = [], vocabulary = [str ''cat''], idf = [1]\<rparr>
        [[1], [0], [1]] (str ''cat'') 2 = Inr (indices, scores) \<and>
      length indices = 2 \<and> length scores = 2)"
  using is_argsort_stable
    search_length [OF is_argsort_stable,
      of 5 "\<lparr>stop_words = [], vocabulary = [str ''cat''], idf = [1]\<rparr>" "[[1], [0], [1]]"
        "str ''cat''"]
    search_length [OF is_argsort_stable,
      of 2 "\<lparr>stop_words = [], vocabulary = [str ''cat''], idf = [1]\<rparr>" "[[1], [0], [1]]"
        "str ''cat''"]
  by (simp add: numeral_3_eq_3 numeral_2_eq_2)


theorem document_vector_unit_or_zero_witness:
  "fit_transform [] [str ''cat'', str ''cat''] =
     Inr (\<lparr>stop_words = [], vocabulary = [str ''cat''], idf = [1]\<rparr>, [[1], [1]]) \<and>
   (1::nat) < length [str ''cat'', str ''cat''] \<and>
   (list_all (\<lambda>x. x = 0) ([[1], [1::real]] ! 1) \<or> l2_norm ([[1], [1]] ! 1) = 1)"
proof -
  have i: "(1::nat) < length [str ''cat'', str ''cat'']" by simp
  show ?thesis
    using fit_transform_two_cats i
      document_vector_unit_or_zero [OF fit_transform_two_cats i]
    by blast
qed

theorem idf_formula_positive_witness:
  "fit_transform [] [str ''cat'', str ''cat''] =
     Inr (\<lparr>stop_words = [], vocabulary = [str ''cat''], idf = [1]\<rparr>, [[1], [1]]) \<and>
   (0::nat) < length (vocabulary \<lparr>stop_words = [], vocabulary = [str ''cat''], idf = [1]\<rparr>) \<and>
   0 < idf \<lparr>stop_words = [], vocabulary = [str ''cat''], idf = [1]\<rparr> ! 0 \<and>
   0 < smoothed_idf (length [str ''cat'', str ''cat'']) 0"
proof -
  have i: "(0::nat) < length (vocabulary \<lparr>stop_words = [], vocabulary = [str ''cat''], idf = [1]\<rparr>)"
    by simp
  show ?thesis
    using fit_transform_two_cats i idf_formula_positive [OF fit_transform_two_cats i]
    by blast
qed

theorem search_out_of_vocabulary_witness:
  "is_argsort (stable_argsort :: real list \<Rightarrow> nat list) \<and>
   list_all (\<lambda>t. t \<notin> set (vocabulary \<lparr>stop_words = [], vocabulary = [str ''cat''], idf = [1]\<rparr>))
     (tokenize (stop_words \<lparr>stop_words = [], vocabulary = [str ''cat''], idf = [1]\<rparr>)
        (str ''dog'')) \<and>
   (\<exists>indices.
      search stable_argsort \<lparr>stop_words = [], vocabulary = [str ''cat''], idf = [1]\<rparr>
        [[1], [1]] (str ''dog'') 2 = Inr (indices, [0, 0]) \<and> length indices = 2)"
proof -
  have h: "list_all (\<lambda>t. t \<notin> set (vocabulary \<lparr>stop_words = [], vocabulary = [str ''cat''], idf = [1]\<rparr>))
     (tokenize (stop_words \<lparr>stop_words = [], vocabulary = [str ''cat''], idf = [1]\<rparr>)
        (str ''dog''))"
    by (simp add: str_def tokenize_def lower_def is_alnum_def bigrams_def)
  have r: "replicate (min (nat 2) (length [[1], [1::real]])) (0::real) = [0, 0]"
    by (simp add: numeral_2_eq_2)
  show ?thesis
    using is_argsort_stable h
      search_out_of_vocabulary [OF is_argsort_stable h, of "[[1], [1]]" 2]
    by (auto simp: r)
qed

theorem first_score_is_max_witness:
  "is_argsort (stable_argsort :: real list \<Rightarrow> nat list) \<and>
   (1::int) \<le> top_k \<lparr>csv_file = ''songs.csv'', text_column = ''lyrics'',
                        query = str ''cat'', top_k = 1\<rparr> \<and>
   strip (query \<lparr>csv_file = ''songs.csv'', text_column = ''lyrics'',
                  query = str ''cat'', top_k = 1\<rparr>) \<noteq> [] \<and>
   (\<exists>indices scores.
      search stable_argsort \<lparr>stop_words = [], vocabulary = [str ''cat''], idf = [1]\<rparr>
        [[1], [1]] (str ''cat'')
        (min 1 (int (length (records
           (fillna \<lparr>columns = [''lyrics''],
                     records = [\<lambda>c. Some (str ''cat''), \<lambda>c. Some (str ''cat'')]\<rparr>
              ''lyrics'')))))
        = Inr (indices, scores) \<and>
      scores \<noteq> [] \<and>
      hd scores = Max (set (cosine_similarity [[1], [1]]
        (transform \<lparr>stop_words = [], vocabulary = [str ''cat''], idf = [1]\<rparr> (str ''cat'')))))"
proof -
  let ?a = "\<lparr>csv_file = ''songs.csv'', text_column = ''lyrics'', query = str ''cat'', top_k = 1\<rparr>"
  let ?df = "fillna \<lparr>columns = [''lyrics''],
                      records = [\<lambda>c. Some (str ''cat''), \<lambda>c. Some (str ''cat'')]\<rparr> ''lyrics''"
  let ?csv = "Frame \<lparr>columns = [''lyrics''],
                     records = [\<lambda>c. Some (str ''cat''), \<lambda>c. Some (str ''cat'')]\<rparr>"
  have k: "1 \<le> top_k ?a" by simp
  have q: "strip (query ?a) \<noteq> []" by (simp add: str_def strip_def isspace_def)
  have l: "load_dataset ?csv (text_column ?a) = Inr ?df"
    by (simp add: column_text_two_cats(1))
  have c: "create_tfidf_index [] (column_text ?df (text_column ?a)) =
             Inr (\<lparr>stop_words = [], vocabulary = [str ''cat''], idf = [1]\<rparr>, [[1], [1]])"
    by (simp add: column_text_two_cats(2) create_tfidf_index_Inr_iff fit_transform_two_cats)
  show ?thesis
    using is_argsort_stable k q first_score_is_max [OF is_argsort_stable k q l c] by simp blast
qed

theorem main_validation_witness:
  "is_argsort (stable_argsort :: real list \<Rightarrow> nat list) \<and>
   top_k \<lparr>csv_file = ''songs.csv'', text_column = ''lyrics'', query = str ''cat'', top_k = 0\<rparr> < 1 \<and>
   main stable_argsort [] FileNotFoundError
     \<lparr>csv_file = ''songs.csv'', text_column = ''lyrics'', query = str ''cat'', top_k = 0\<rparr> =
     Exit1 TopKTooSmall \<and>
   1 \<le> top_k \<lparr>csv_file = ''songs.csv'', text_column = ''lyrics'',
                 query = [32, 160, 8195], top_k = 5\<rparr> \<and>
   strip (query \<lparr>csv_file = ''songs.csv'', text_column = ''lyrics'',
                  query = [32, 160, 8195], top_k = 5\<rparr>) = [] \<and>
   main stable_argsort [] FileNotFoundError
     \<lparr>csv_file = ''songs.csv'', text_column = ''lyrics'', query = [32, 160, 8195], top_k = 5\<rparr> =
     Exit1 QueryEmpty"
  using is_argsort_stable
    main_validation [OF is_argsort_stable,
      of "\<lparr>csv_file = ''songs.csv'', text_column = ''lyrics'', query = str ''cat'', top_k = 0\<rparr>"
      "[]" FileNotFoundError]
    main_validation [OF is_argsort_stable,
      of "\<lparr>csv_file = ''songs.csv'', text_column = ''lyrics'', query = [32, 160, 8195], top_k = 5\<rparr>"
      "[]" FileNotFoundError]
  by (simp add: strip_def isspace_def)

text \<open>
  Claim C6 as stated fails. With \<open>top_k = 0\<close> and a query of three spaces, \<open>main\<close>
  ends with the error about \<open>top_k\<close>, not with the error about the empty query: the
  check of \<open>top_k\<close> comes first. The function \<open>search\<close> itself checks nothing: called
  with that query and \<open>top_k = 0\<close> it returns every document, since \<open>a[-0:]\<close> is the
  whole array.
\<close>

theorem main_validation_counterexample:
  "strip (str ''   '') = [] \<and>
   main stable_argsort []
     (Frame \<lparr>columns = [''lyrics''],
              records = [\<lambda>c. Some (str ''cat''), \<lambda>c. Some (str ''cat'')]\<rparr>)
     \<lparr>csv_file = ''songs.csv'', text_column = ''lyrics'', query = str ''   '', top_k = 0\<rparr> =
     Exit1 TopKTooSmall \<and>
   search stable_argsort \<lparr>stop_words = [], vocabulary = [str ''cat''], idf = [1]\<rparr>
     [[1], [1]] (str ''   '') 0 =
     Inr ([1, 0], [0, 0])"
proof (intro conjI)
  show "strip (str ''   '') = []"
    by (simp add: str_def strip_def isspace_def)
  show "main stable_argsort []
     (Frame \<lparr>columns = [''lyrics''],
              records = [\<lambda>c. Some (str ''cat''), \<lambda>c. Some (str ''cat'')]\<rparr>)
     \<lparr>csv_file = ''songs.csv'', text_column = ''lyrics'', query = str ''   '', top_k = 0\<rparr> =
     Exit1 TopKTooSmall"
    by (simp add: main_def)
  have "cosine_similarity [[1], [1]]
          (transform \<lparr>stop_words = [], vocabulary = [str ''cat''], idf = [1]\<rparr> (str ''   '')) =
        [0, 0]"
    by (simp add: str_def transform_def cosine_similarity_def tokenize_def lower_def
        is_alnum_def bigrams_def vectorize_def raw_weights_def l2_normalize_def l2_norm_def
        dot_def Let_def)
  moreover have "stable_argsort [0, 0 :: real] = [0, 1]"
    by (simp add: stable_argsort_def)
  ultimately show "search stable_argsort
     \<lparr>stop_words = [], vocabulary = [str ''cat''], idf = [1]\<rparr> [[1], [1]] (str ''   '') 0 =
     Inr ([1, 0], [0, 0])"
    by (simp add: search_eq top_k_select_eq [OF is_argsort_stable] slice_from_def)
qed

theorem create_tfidf_index_errors_witness:
  "create_tfidf_index [str ''the'', str ''and''] [] = Inl (TfidfIndexError EmptyCorpusError) \<and>
   create_tfidf_index [str ''the'', str ''and''] [str ''the and'', str ''The''] =
     Inl (TfidfIndexError EmptyVocabularyError) \<and>
   (\<exists>v X. create_tfidf_index [str ''the'', str ''and''] [str ''the cat''] = Inr (v, X)) \<and>
   tokenize [str ''the'', str ''and''] (str ''The and'') = []"
  using create_tfidf_index_errors
      [of "[str ''the'', str ''and'']" "[str ''the and'', str ''The'']" "str ''The and''"]
    create_tfidf_index_errors
      [of "[str ''the'', str ''and'']" "[str ''the cat'']" "str ''The and''"]
  by (simp add: str_def tokenize_def lower_def is_alnum_def bigrams_def)

end
